theory Spec2Isabelle
  imports Main "HOL-Library.Word" "HOL-Library.Sublist"
begin

unbundle bit_operations_syntax

section \<open>The library values that \<open>getSystemInfo\<close> handles\<close>

text \<open>
  \<open>src/main.go\<close> reads the host through Go's \<open>os\<close> and \<open>net\<close> packages. The types
  of those packages appear here as the code sees them: \<open>net.IP\<close>, \<open>net.IPMask\<close> and
  \<open>net.HardwareAddr\<close> are byte slices, \<open>net.Addr\<close> is an interface whose dynamic type
  is tested on line 57, and \<open>net.Interface\<close> is a struct.
\<close>

type_synonym byte = "8 word"
type_synonym IP = "byte list"
type_synonym IPMask = "byte list"

datatype error = OSError string

text \<open>
  The dynamic types of a \<open>net.Addr\<close>: \<open>*net.IPNet\<close> (fields \<open>IP\<close>, \<open>Mask\<close>), which
  the type assertion of line 57 accepts, and \<open>*net.IPAddr\<close> (fields \<open>IP\<close>, \<open>Zone\<close>),
  which stands for every type it rejects.
\<close>

datatype Addr = IPNet IP IPMask | IPAddr IP string

text \<open>
  \<open>net.Interface\<close>. The method \<open>Addrs()\<close> asks the operating system for the
  addresses of the interface; its answer (an error or a list) is carried as the last
  field.
\<close>

record Interface =
  Index :: int
  MTU :: int
  Name :: string
  HardwareAddr :: "byte list"
  Flags :: nat
  Addrs :: "error + Addr list"

text \<open>
  What the program reads from its host: the answer of \<open>os.Hostname()\<close> (every error
  return of that function returns the empty name with the error), the answer of
  \<open>net.Interfaces()\<close>, and the clock that \<open>main\<close> reads with \<open>time.Now()\<close>.
\<close>

record os =
  Hostname :: "error + string"
  Interfaces :: "error + Interface list"
  Now :: nat

subsection \<open>\<open>net.IP\<close>: \<open>To4\<close>, \<open>Equal\<close>, \<open>IsLoopback\<close>\<close>

definition isZeros :: "byte list \<Rightarrow> bool" where
  "isZeros p = list_all (\<lambda>b. b = 0) p"

definition To4 :: "IP \<Rightarrow> IP option" where
  "To4 ip =
     (if length ip = 4 then Some ip
      else if length ip = 16 \<and> isZeros (take 10 ip) \<and> ip ! 10 = 0xff \<and> ip ! 11 = 0xff
           then Some (drop 12 ip)
      else None)"

definition v4InV6Prefix :: "byte list" where
  "v4InV6Prefix = [0, 0, 0, 0, 0, 0, 0, 0, 0, 0, 0xff, 0xff]"

definition IPv6loopback :: IP where
  "IPv6loopback = [0, 0, 0, 0, 0, 0, 0, 0, 0, 0, 0, 0, 0, 0, 0, 1]"

definition Equal :: "IP \<Rightarrow> IP \<Rightarrow> bool" where
  "Equal ip x =
     (if length ip = length x then ip = x
      else if length ip = 4 \<and> length x = 16
           then take 12 x = v4InV6Prefix \<and> ip = drop 12 x
      else if length ip = 16 \<and> length x = 4
           then take 12 ip = v4InV6Prefix \<and> drop 12 ip = x
      else False)"

definition IsLoopback :: "IP \<Rightarrow> bool" where
  "IsLoopback ip =
     (case To4 ip of
        Some ip4 \<Rightarrow> hd ip4 = 127
      | None \<Rightarrow> Equal ip IPv6loopback)"

subsection \<open>Text forms: \<open>IP.String\<close> and \<open>HardwareAddr.String\<close>\<close>

definition hexDigit :: string where
  "hexDigit = ''0123456789abcdef''"

definition hexByte :: "byte \<Rightarrow> string" where
  "hexByte b = [hexDigit ! unat (drop_bit 4 b), hexDigit ! unat (b AND 0xF)]"

definition hexString :: "byte list \<Rightarrow> string" where
  "hexString b = concat (map hexByte b)"

text \<open>Decimal text of one byte, without leading zeros.\<close>

definition appendDecimal :: "byte \<Rightarrow> string" where
  "appendDecimal x =
     (let n = unat x in
      (if 100 \<le> n then [hexDigit ! (n div 100)] else []) @
      (if 10 \<le> n then [hexDigit ! (n div 10 mod 10)] else []) @
      [hexDigit ! (n mod 10)])"

definition string4 :: "byte \<Rightarrow> byte \<Rightarrow> byte \<Rightarrow> byte \<Rightarrow> string" where
  "string4 a b c d =
     appendDecimal a @ ''.'' @ appendDecimal b @ ''.'' @ appendDecimal c @ ''.'' @ appendDecimal d"

text \<open>Hexadecimal text of one 16-bit group of an IPv6 address, without leading zeros.\<close>

definition appendHex :: "nat \<Rightarrow> string" where
  "appendHex x =
     (if 0x1000 \<le> x then [hexDigit ! (x div 0x1000)] else []) @
     (if 0x100 \<le> x then [hexDigit ! (x div 0x100 mod 16)] else []) @
     (if 0x10 \<le> x then [hexDigit ! (x div 0x10 mod 16)] else []) @
     [hexDigit ! (x mod 16)]"

definition v6u16 :: "IP \<Rightarrow> nat \<Rightarrow> nat" where
  "v6u16 ip i = 256 * unat (ip ! (2 * i)) + unat (ip ! (2 * i + 1))"

text \<open>
  The longest run of at least two zero groups, as a half-open range of group indices
  (the earliest one among equals); \<open>(255, 255)\<close> when there is none.
\<close>

definition zeroRun :: "nat list \<Rightarrow> nat \<times> nat" where
  "zeroRun fs =
     fold (\<lambda>i (zeroStart, zeroEnd).
             let j = i + length (takeWhile (\<lambda>x. x = 0) (drop i fs)); l = j - i
             in if 2 \<le> l \<and> zeroEnd - zeroStart < l then (i, j) else (zeroStart, zeroEnd))
          [0..<8] (255, 255)"

text \<open>
  The text of a 16-byte address that is not an IPv4-mapped one: eight groups separated
  by colons, the run found by \<open>zeroRun\<close> written as \<open>::\<close>.
\<close>

definition string6 :: "IP \<Rightarrow> string" where
  "string6 ip =
     (let fs = map (v6u16 ip) [0..<8]; (zeroStart, zeroEnd) = zeroRun fs
      in concat (map (\<lambda>i.
           (if i = zeroStart then ''::'' else []) @
           (if zeroStart \<le> i \<and> i < zeroEnd then []
            else (if 0 < i \<and> i \<noteq> zeroEnd then '':'' else []) @ appendHex (fs ! i)))
         [0..<8]))"

definition IP_String :: "IP \<Rightarrow> string" where
  "IP_String ip =
     (if length ip = 0 then ''<nil>''
      else if length ip \<noteq> 4 \<and> length ip \<noteq> 16 then CHR ''?'' # hexString ip
      else case To4 ip of
             Some [a, b, c, d] \<Rightarrow> string4 a b c d
           | _ \<Rightarrow> string6 ip)"

definition HardwareAddr_String :: "byte list \<Rightarrow> string" where
  "HardwareAddr_String a =
     (if length a = 0 then ''''
      else concat (map (\<lambda>(i, b). (if 0 < i then '':'' else []) @ hexByte b)
                       (enumerate 0 a)))"

section \<open>\<open>getSystemInfo\<close> (src/main.go, lines 40 to 70)\<close>

text \<open>
  \<open>log.Fatal\<close> prints its argument and ends the process with \<open>os.Exit(1)\<close>: the
  function then returns nothing. Otherwise it returns its three strings.
\<close>

datatype outcome = Fatal error | Returned string string string

text \<open>
  The variables of the loop of lines 49 to 67, and the log of the interfaces on which
  \<open>Addrs()\<close> was called (line 51), in call order.
\<close>

record scan =
  ipAddress :: string
  macAddress :: string
  queried :: "Interface list"

text \<open>The inner loop, lines 56 to 63: the first address that passes line 58 ends it.\<close>

fun addr_loop :: "Interface \<Rightarrow> Addr list \<Rightarrow> scan \<Rightarrow> scan" where
  "addr_loop iface [] st = st"
| "addr_loop iface (IPNet ip msk # rest) st =
     (if \<not> IsLoopback ip \<and> To4 ip \<noteq> None
      then st\<lparr>ipAddress := IP_String ip,
              macAddress := HardwareAddr_String (HardwareAddr iface)\<rparr>
      else addr_loop iface rest st)"
| "addr_loop iface (IPAddr ip zone # rest) st = addr_loop iface rest st"

text \<open>The outer loop, lines 50 to 67.\<close>

fun iface_loop :: "Interface list \<Rightarrow> scan \<Rightarrow> scan" where
  "iface_loop [] st = st"
| "iface_loop (iface # rest) st =
     (let st1 = st\<lparr>queried := queried st @ [iface]\<rparr> in
      case Addrs iface of
        Inl err \<Rightarrow> iface_loop rest st1
      | Inr addrs \<Rightarrow>
          (let st2 = addr_loop iface addrs st1 in
           if ipAddress st2 \<noteq> '''' \<and> macAddress st2 \<noteq> '''' then st2
           else iface_loop rest st2))"

definition scan0 :: scan where
  "scan0 = \<lparr>ipAddress = '''', macAddress = '''', queried = []\<rparr>"

definition getSystemInfo :: "os \<Rightarrow> outcome" where
  "getSystemInfo env =
     (let hostname = (case Hostname env of Inl err \<Rightarrow> '''' | Inr name \<Rightarrow> name) in
      case Interfaces env of
        Inl err \<Rightarrow> Fatal err
      | Inr interfaces \<Rightarrow>
          (let st = iface_loop interfaces scan0
           in Returned hostname (ipAddress st) (macAddress st)))"

section \<open>Vocabulary of the properties\<close>

text \<open>The \<open>IP\<close> field of an address, whatever its dynamic type.\<close>

fun addr_ip :: "Addr \<Rightarrow> IP" where
  "addr_ip (IPNet ip m) = ip"
| "addr_ip (IPAddr ip z) = ip"

text \<open>The test of line 58: an \<open>*net.IPNet\<close> whose IP is an IPv4 address and no loopback.\<close>

fun nonLoopbackIPv4 :: "Addr \<Rightarrow> bool" where
  "nonLoopbackIPv4 (IPNet ip m) = (\<not> IsLoopback ip \<and> To4 ip \<noteq> None)"
| "nonLoopbackIPv4 (IPAddr ip z) = False"

text \<open>
  The pair that one interface offers: the text of its first non-loopback IPv4 address
  together with the text of its own hardware address. An interface whose addresses
  cannot be read, or that has no such address, offers nothing.
\<close>

definition first_pair :: "Interface \<Rightarrow> (string \<times> string) option" where
  "first_pair iface =
     (case Addrs iface of
        Inl err \<Rightarrow> None
      | Inr addrs \<Rightarrow>
          (case find nonLoopbackIPv4 addrs of
             None \<Rightarrow> None
           | Some a \<Rightarrow>
               Some (IP_String (addr_ip a), HardwareAddr_String (HardwareAddr iface))))"

definition qualifying :: "Interface \<Rightarrow> bool" where
  "qualifying iface = (first_pair iface \<noteq> None)"

text \<open>The test of line 64: both strings are there.\<close>

definition found :: "scan \<Rightarrow> bool" where
  "found st = (ipAddress st \<noteq> '''' \<and> macAddress st \<noteq> '''')"

text \<open>The last two of the three returned strings; nothing when the process was ended.\<close>

fun ip_mac :: "outcome \<Rightarrow> (string \<times> string) option" where
  "ip_mac (Returned hostname ip mac) = Some (ip, mac)"
| "ip_mac (Fatal err) = None"

text \<open>
  The pair read off the list of interfaces without running the loop: of the pairs that
  the interfaces offer, in order, the first one with a hardware address; without such
  a pair the last one offered; without any pair two empty strings.
\<close>

definition chosen :: "Interface list \<Rightarrow> string \<times> string" where
  "chosen ifs =
     (let ps = List.map_filter first_pair ifs in
      case find (\<lambda>p. snd p \<noteq> []) ps of
        Some p \<Rightarrow> p
      | None \<Rightarrow> if ps = [] then ('''', '''') else last ps)"

subsection \<open>Some interfaces\<close>

definition lo :: Interface where
  "lo = \<lparr>Index = 1, MTU = 65536, Name = ''lo'', HardwareAddr = [], Flags = 37,
         Addrs = Inr [IPNet [127, 0, 0, 1] [255, 0, 0, 0],
                      IPNet IPv6loopback (replicate 16 0xff)]\<rparr>"

definition eth0 :: Interface where
  "eth0 = \<lparr>Index = 2, MTU = 1500, Name = ''eth0'',
           HardwareAddr = [0xaa, 0xbb, 0xcc, 0xdd, 0xee, 0xff], Flags = 51,
           Addrs = Inr [IPNet [192, 0, 2, 10] [255, 255, 255, 0]]\<rparr>"

definition eth1 :: Interface where
  "eth1 = \<lparr>Index = 3, MTU = 1500, Name = ''eth1'',
           HardwareAddr = [0x02, 0x42, 0xac, 0x11, 0x00, 0x02], Flags = 51,
           Addrs = Inr [IPNet [198, 51, 100, 7] [255, 255, 255, 0]]\<rparr>"

text \<open>A tunnel: it has an IPv4 address and no hardware address.\<close>

definition tun0 :: Interface where
  "tun0 = \<lparr>Index = 4, MTU = 1420, Name = ''tun0'', HardwareAddr = [], Flags = 57,
           Addrs = Inr [IPNet [10, 8, 0, 1] [255, 255, 255, 0]]\<rparr>"

text \<open>An interface with a link-local IPv6 address only (\<open>fe80::1\<close>).\<close>

definition eth2 :: Interface where
  "eth2 = \<lparr>Index = 5, MTU = 1500, Name = ''eth2'',
           HardwareAddr = [0x02, 0x42, 0xac, 0x11, 0x00, 0x03], Flags = 51,
           Addrs = Inr [IPNet [0xfe, 0x80, 0, 0, 0, 0, 0, 0, 0, 0, 0, 0, 0, 0, 0, 1]
                              (replicate 8 0xff @ replicate 8 0)]\<rparr>"

text \<open>An interface whose addresses cannot be read.\<close>

definition eth3 :: Interface where
  "eth3 = \<lparr>Index = 6, MTU = 1500, Name = ''eth3'',
           HardwareAddr = [0x02, 0x42, 0xac, 0x11, 0x00, 0x04], Flags = 51,
           Addrs = Inl (OSError ''route ip+net: no such network interface'')\<rparr>"

definition host :: "Interface list \<Rightarrow> os" where
  "host ifs = \<lparr>Hostname = Inr ''web-1'', Interfaces = Inr ifs, Now = 0\<rparr>"

section \<open>Facts about the loops\<close>

subsection \<open>The text forms are empty only for an empty hardware address\<close>

lemma To4_length: "To4 ip = Some p \<Longrightarrow> length p = 4"
  by (auto simp: To4_def split: if_splits)

lemma appendDecimal_nonempty: "appendDecimal x \<noteq> []"
  by (simp add: appendDecimal_def Let_def)

lemma IP_String_nonempty: "To4 ip \<noteq> None \<Longrightarrow> IP_String ip \<noteq> []"
proof -
  assume "To4 ip \<noteq> None"
  then obtain p where p: "To4 ip = Some p" by auto
  then have "length p = 4" by (rule To4_length)
  then obtain a b c d where "p = [a, b, c, d]"
    by (auto simp: length_Suc_conv numeral_eq_Suc)
  with p show ?thesis
    by (auto simp: IP_String_def string4_def appendDecimal_nonempty)
qed

lemma HardwareAddr_String_empty_iff: "HardwareAddr_String a = [] \<longleftrightarrow> a = []"
proof (cases a)
  case Nil
  then show ?thesis by (simp add: HardwareAddr_String_def)
next
  case (Cons b bs)
  then show ?thesis
    by (simp add: HardwareAddr_String_def hexByte_def)
qed

subsection \<open>The inner loop finds the first address that passes line 58\<close>

lemma addr_loop_find:
  "addr_loop iface addrs st =
     (case find nonLoopbackIPv4 addrs of
        None \<Rightarrow> st
      | Some a \<Rightarrow> st\<lparr>ipAddress := IP_String (addr_ip a),
                      macAddress := HardwareAddr_String (HardwareAddr iface)\<rparr>)"
  by (induction iface addrs st rule: addr_loop.induct) auto

lemma nonLoopbackIPv4_To4: "nonLoopbackIPv4 a \<Longrightarrow> To4 (addr_ip a) \<noteq> None"
  by (cases a) simp_all

lemma find_nonLoopbackIPv4_To4:
  "find nonLoopbackIPv4 addrs = Some a \<Longrightarrow> To4 (addr_ip a) \<noteq> None"
  by (auto simp: find_Some_iff elim: nonLoopbackIPv4.elims)

lemma first_pair_ip_nonempty: "first_pair iface = Some (ip, mac) \<Longrightarrow> ip \<noteq> []"
  by (auto simp: first_pair_def IP_String_nonempty find_nonLoopbackIPv4_To4
           split: sum.splits option.splits)

subsection \<open>The outer loop, entered with a string still missing\<close>

text \<open>
  One round of the outer loop in terms of the pair that the interface offers. The
  loop is entered with \<open>found\<close> false and goes on only as long as it stays false.
\<close>

lemma iface_loop_step:
  assumes "\<not> found st"
  shows "iface_loop (iface # rest) st =
     (case first_pair iface of
        None \<Rightarrow> iface_loop rest (st\<lparr>queried := queried st @ [iface]\<rparr>)
      | Some (ip, mac) \<Rightarrow>
          (if mac \<noteq> []
           then st\<lparr>queried := queried st @ [iface], ipAddress := ip, macAddress := mac\<rparr>
           else iface_loop rest
                  (st\<lparr>queried := queried st @ [iface], ipAddress := ip, macAddress := mac\<rparr>)))"
  using assms
  by (auto simp: first_pair_def addr_loop_find found_def Let_def IP_String_nonempty
                 find_nonLoopbackIPv4_To4
           split: sum.splits option.splits)

text \<open>The two strings that the loop leaves are the pair \<open>chosen\<close> describes.\<close>

lemma loop_result:
  "\<not> found st \<Longrightarrow>
   (ipAddress (iface_loop ifs st), macAddress (iface_loop ifs st)) =
     (let ps = List.map_filter first_pair ifs in
      case find (\<lambda>p. snd p \<noteq> []) ps of
        Some p \<Rightarrow> p
      | None \<Rightarrow> if ps = [] then (ipAddress st, macAddress st) else last ps)"
proof (induction ifs arbitrary: st)
  case Nil
  then show ?case by (simp add: List.map_filter_simps)
next
  case (Cons i ifs)
  note step = iface_loop_step [OF Cons.prems, of i ifs]
  show ?case
  proof (cases "first_pair i")
    case None
    let ?st1 = "st\<lparr>queried := queried st @ [i]\<rparr>"
    have nf: "\<not> found ?st1" using Cons.prems by (simp add: found_def)
    have eq: "iface_loop (i # ifs) st = iface_loop ifs ?st1"
      unfolding step None by simp
    show ?thesis
      unfolding eq using Cons.IH [OF nf] None by (simp add: List.map_filter_simps Let_def)
  next
    case (Some p)
    obtain ip mac where p: "p = (ip, mac)" by (cases p)
    let ?st2 = "st\<lparr>queried := queried st @ [i], ipAddress := ip, macAddress := mac\<rparr>"
    show ?thesis
    proof (cases "mac = []")
      case True
      have nf: "\<not> found ?st2" using True by (simp add: found_def)
      have eq: "iface_loop (i # ifs) st = iface_loop ifs ?st2"
        unfolding step Some p using True by simp
      show ?thesis
        unfolding eq using Cons.IH [OF nf] Some p True
        by (simp add: List.map_filter_simps Let_def split: option.splits)
    next
      case False
      have eq: "iface_loop (i # ifs) st = ?st2"
        unfolding step Some p using False by simp
      show ?thesis
        unfolding eq using Some p False by (simp add: List.map_filter_simps Let_def)
    qed
  qed
qed

lemma map_filter_append: "List.map_filter f (xs @ ys) = List.map_filter f xs @ List.map_filter f ys"
  by (simp add: List.map_filter_def)

lemma map_filter_all_None: "\<forall>x\<in>set xs. f x = None \<Longrightarrow> List.map_filter f xs = []"
  by (induction xs) (simp_all add: List.map_filter_simps)

lemma in_set_map_filter: "p \<in> set (List.map_filter f xs) \<longleftrightarrow> (\<exists>x\<in>set xs. f x = Some p)"
  by (induction xs) (auto simp: List.map_filter_simps split: option.splits)

subsection \<open>The log of \<open>Addrs()\<close> calls, and runs over a list cut in two\<close>

lemma queried_extends: "prefix (queried st) (queried (iface_loop ifs st))"
proof (induction ifs arbitrary: st)
  case Nil
  then show ?case by simp
next
  case (Cons i ifs)
  have a: "prefix (queried st) (queried (iface_loop ifs s'))"
    if "queried s' = queried st @ [i]" for s'
    using that Cons.IH [of s'] by (metis append_prefixD)
  have b: "queried (addr_loop i addrs s') = queried s'" for addrs s'
    by (simp add: addr_loop_find split: option.splits)
  show ?case
    by (auto simp: Let_def a b split: sum.splits)
qed

lemma loop_continue:
  "\<not> found st \<Longrightarrow> \<not> found (iface_loop pre st) \<Longrightarrow>
   iface_loop (pre @ post) st = iface_loop post (iface_loop pre st)
   \<and> queried (iface_loop pre st) = queried st @ pre"
proof (induction pre arbitrary: st)
  case Nil
  then show ?case by simp
next
  case (Cons i pre)
  note step = iface_loop_step [OF Cons.prems(1), of i]
  show ?case
  proof (cases "first_pair i")
    case None
    let ?st1 = "st\<lparr>queried := queried st @ [i]\<rparr>"
    have nf: "\<not> found ?st1" using Cons.prems by (simp add: found_def)
    have eq: "iface_loop (i # xs) st = iface_loop xs ?st1" for xs
      unfolding step None by simp
    have nf': "\<not> found (iface_loop pre ?st1)" using Cons.prems(2) unfolding eq .
    show ?thesis
      using Cons.IH [OF nf nf'] unfolding append_Cons eq by simp
  next
    case (Some p)
    obtain ip mac where p: "p = (ip, mac)" by (cases p)
    let ?st2 = "st\<lparr>queried := queried st @ [i], ipAddress := ip, macAddress := mac\<rparr>"
    have ip: "ip \<noteq> []" using Some p first_pair_ip_nonempty by blast
    have mac: "mac = []"
    proof (rule ccontr)
      assume m: "mac \<noteq> []"
      have "iface_loop (i # pre) st = ?st2" unfolding step Some p using m by simp
      with Cons.prems(2) ip m show False by (simp add: found_def)
    qed
    have nf: "\<not> found ?st2" using mac by (simp add: found_def)
    have eq: "iface_loop (i # xs) st = iface_loop xs ?st2" for xs
      unfolding step Some p using mac by simp
    have nf': "\<not> found (iface_loop pre ?st2)" using Cons.prems(2) unfolding eq .
    show ?thesis
      using Cons.IH [OF nf nf'] unfolding append_Cons eq by simp
  qed
qed

lemma loop_stop:
  "\<not> found st \<Longrightarrow> found (iface_loop pre st) \<Longrightarrow>
   iface_loop (pre @ post) st = iface_loop pre st"
proof (induction pre arbitrary: st)
  case Nil
  then show ?case by simp
next
  case (Cons i pre)
  note step = iface_loop_step [OF Cons.prems(1), of i]
  show ?case
  proof (cases "first_pair i")
    case None
    let ?st1 = "st\<lparr>queried := queried st @ [i]\<rparr>"
    have nf: "\<not> found ?st1" using Cons.prems by (simp add: found_def)
    have eq: "iface_loop (i # xs) st = iface_loop xs ?st1" for xs
      unfolding step None by simp
    have f': "found (iface_loop pre ?st1)" using Cons.prems(2) unfolding eq .
    show ?thesis
      using Cons.IH [OF nf f'] unfolding append_Cons eq by simp
  next
    case (Some p)
    obtain ip mac where p: "p = (ip, mac)" by (cases p)
    let ?st2 = "st\<lparr>queried := queried st @ [i], ipAddress := ip, macAddress := mac\<rparr>"
    show ?thesis
    proof (cases "mac = []")
      case True
      have nf: "\<not> found ?st2" using True by (simp add: found_def)
      have eq: "iface_loop (i # xs) st = iface_loop xs ?st2" for xs
        unfolding step Some p using True by simp
      have f': "found (iface_loop pre ?st2)" using Cons.prems(2) unfolding eq .
      show ?thesis
        using Cons.IH [OF nf f'] unfolding append_Cons eq by simp
    next
      case False
      have eq: "iface_loop (i # xs) st = ?st2" for xs
        unfolding step Some p using False by simp
      show ?thesis unfolding append_Cons eq by simp
    qed
  qed
qed

lemma queried_within:
  "\<exists>n. queried (iface_loop ifs st) = queried st @ take n ifs"
proof (induction ifs arbitrary: st)
  case Nil
  then show ?case by simp
next
  case (Cons i ifs)
  have b: "queried (addr_loop i addrs s') = queried s'" for addrs s'
    by (simp add: addr_loop_find split: option.splits)
  have a: "\<exists>n. queried (iface_loop ifs s') = queried st @ take n (i # ifs)"
    if "queried s' = queried st @ [i]" for s'
  proof -
    from Cons.IH [of s'] obtain n where "queried (iface_loop ifs s') = queried s' @ take n ifs" ..
    then have "queried (iface_loop ifs s') = queried st @ take (Suc n) (i # ifs)"
      using that by simp
    then show ?thesis ..
  qed
  have c: "\<exists>n. [i] = take n (i # ifs)"
    by (rule exI [of _ 1]) simp
  show ?case
    by (auto simp: Let_def a b c split: sum.splits)
qed

subsection \<open>\<open>getSystemInfo\<close> when the interfaces can be enumerated\<close>

lemma getSystemInfo_chosen:
  assumes "Interfaces env = Inr ifs"
  shows "getSystemInfo env =
           Returned (case Hostname env of Inl err \<Rightarrow> [] | Inr name \<Rightarrow> name)
                    (fst (chosen ifs)) (snd (chosen ifs))"
proof -
  have nf: "\<not> found scan0" by (simp add: found_def scan0_def)
  have "(ipAddress (iface_loop ifs scan0), macAddress (iface_loop ifs scan0)) = chosen ifs"
    unfolding chosen_def loop_result [OF nf] by (simp add: scan0_def Let_def)
  then have "ipAddress (iface_loop ifs scan0) = fst (chosen ifs)"
    and "macAddress (iface_loop ifs scan0) = snd (chosen ifs)"
    by (metis fst_conv, metis snd_conv)
  then show ?thesis using assms by (simp add: getSystemInfo_def)
qed

lemma ip_mac_chosen: "Interfaces env = Inr ifs \<Longrightarrow> ip_mac (getSystemInfo env) = Some (chosen ifs)"
  by (simp add: getSystemInfo_chosen)

lemma chosen_drop_None:
  "first_pair iface = None \<Longrightarrow> chosen (pre @ iface # post) = chosen (pre @ post)"
  by (simp add: chosen_def map_filter_append)

subsection \<open>Lists\<close>

lemma find_append_if:
  "find P (xs @ ys) = (case find P xs of None \<Rightarrow> find P ys | Some x \<Rightarrow> Some x)"
  by (induction xs) simp_all

lemma To4_Some_length: "To4 ip = Some p \<Longrightarrow> length ip = 4 \<or> length ip = 16"
  by (auto simp: To4_def split: if_splits)

lemma find_skip_prefix:
  "\<forall>a\<in>set as1. \<not> P a \<Longrightarrow> P a \<Longrightarrow> find P (as1 @ a # as2) = Some a"
  by (induction as1) simp_all

lemma no_pairs:
  "\<forall>x\<in>set xs. \<not> qualifying x \<Longrightarrow> List.map_filter first_pair xs = []"
  unfolding qualifying_def by (intro map_filter_all_None) blast

subsection \<open>The example interfaces, evaluated\<close>

lemmas text_defs =
  IsLoopback_def To4_def IP_String_def string4_def appendDecimal_def hexDigit_def
  HardwareAddr_String_def hexByte_def isZeros_def Equal_def IPv6loopback_def

lemma ex_first_pair:
  "first_pair lo = None"
  "first_pair eth0 = Some (''192.0.2.10'', ''aa:bb:cc:dd:ee:ff'')"
  "first_pair eth1 = Some (''198.51.100.7'', ''02:42:ac:11:00:02'')"
  "first_pair tun0 = Some (''10.8.0.1'', [])"
  "first_pair eth2 = None"
  "first_pair eth3 = None"
  by (simp_all add: first_pair_def lo_def eth0_def eth1_def tun0_def eth2_def eth3_def text_defs)

lemma ex_texts:
  "string4 192 0 2 10 = ''192.0.2.10''"
  "HardwareAddr_String [0xaa, 0xbb, 0xcc, 0xdd, 0xee, 0xff] = ''aa:bb:cc:dd:ee:ff''"
  by (simp_all add: text_defs)

lemma ex_loops:
  "iface_loop [eth0] scan0 = \<lparr>ipAddress = ''192.0.2.10'', macAddress = ''aa:bb:cc:dd:ee:ff'', queried = [eth0]\<rparr>"
  "iface_loop [tun0] scan0 = \<lparr>ipAddress = ''10.8.0.1'', macAddress = '''', queried = [tun0]\<rparr>"
proof -
  have nf: "\<not> found scan0" by (simp add: found_def scan0_def)
  show "iface_loop [eth0] scan0 =
          \<lparr>ipAddress = ''192.0.2.10'', macAddress = ''aa:bb:cc:dd:ee:ff'', queried = [eth0]\<rparr>"
    unfolding iface_loop_step [OF nf] by (simp add: ex_first_pair scan0_def)
  show "iface_loop [tun0] scan0 =
          \<lparr>ipAddress = ''10.8.0.1'', macAddress = '''', queried = [tun0]\<rparr>"
    unfolding iface_loop_step [OF nf] by (simp add: ex_first_pair scan0_def)
qed

lemma ex_eth0_only:
  "getSystemInfo (host [lo, eth0]) = Returned ''web-1'' ''192.0.2.10'' ''aa:bb:cc:dd:ee:ff''"
  by (simp add: getSystemInfo_def host_def scan0_def lo_def eth0_def text_defs Let_def)

lemma ex_tun0_last:
  "getSystemInfo (host [eth2, tun0, lo]) = Returned ''web-1'' ''10.8.0.1'' ''''"
  by (simp add: getSystemInfo_def host_def scan0_def eth2_def tun0_def lo_def text_defs Let_def)

section \<open>The claims\<close>

text \<open>
  Claim C1, as amended. An interface qualifies when it offers a pair, that is, when its
  addresses can be read and one of them is a non-loopback IPv4 address. Among the
  qualifying interfaces the resolver returns the pair of the first one, in the order
  of the list, whose hardware address is not empty. Qualifying interfaces before it
  whose hardware address is empty are passed over: line 64 leaves the loop only when
  both strings are non-empty.
\<close>

theorem first_qualifying_with_hardware_addr:
  assumes "Interfaces env = Inr (pre @ iface # post)"
    and "\<forall>x\<in>set pre. \<not> (qualifying x \<and> HardwareAddr x \<noteq> [])"
    and "qualifying iface"
    and "HardwareAddr iface \<noteq> []"
  shows "ip_mac (getSystemInfo env) = first_pair iface"
proof -
  from assms(3) obtain ip mac where fp: "first_pair iface = Some (ip, mac)"
    by (auto simp: qualifying_def)
  have mac_eq: "snd p = HardwareAddr_String (HardwareAddr x)" if "first_pair x = Some p" for x p
    using that by (auto simp: first_pair_def split: sum.splits option.splits)
  have mac: "mac \<noteq> []"
    using mac_eq [OF fp] assms(4) by (simp add: HardwareAddr_String_empty_iff)
  have pre: "find (\<lambda>p. snd p \<noteq> []) (List.map_filter first_pair pre) = None"
  proof -
    have "snd p = []" if "p \<in> set (List.map_filter first_pair pre)" for p
    proof -
      from that obtain x where x: "x \<in> set pre" "first_pair x = Some p"
        by (auto simp: in_set_map_filter)
      then have "HardwareAddr x = []" using assms(2) unfolding qualifying_def by fastforce
      with mac_eq [OF x(2)] show ?thesis by (simp add: HardwareAddr_String_empty_iff)
    qed
    then show ?thesis by (auto simp: find_None_iff)
  qed
  have "chosen (pre @ iface # post) = (ip, mac)"
    using pre fp mac by (simp add: chosen_def map_filter_append find_append_if)
  then show ?thesis using ip_mac_chosen [OF assms(1)] fp by simp
qed

text \<open>An instance: the tunnel comes first and is passed over, \<open>eth0\<close> gives the pair.\<close>

theorem first_qualifying_with_hardware_addr_witness:
  "Interfaces (host [lo, tun0, eth0, eth1]) = Inr ([lo, tun0] @ eth0 # [eth1])
   \<and> \<not> (qualifying lo \<and> HardwareAddr lo \<noteq> [])
   \<and> \<not> (qualifying tun0 \<and> HardwareAddr tun0 \<noteq> [])
   \<and> qualifying eth0 \<and> HardwareAddr eth0 \<noteq> []
   \<and> ip_mac (getSystemInfo (host [lo, tun0, eth0, eth1])) =
       Some (''192.0.2.10'', ''aa:bb:cc:dd:ee:ff'')"
proof -
  have a: "Interfaces (host [lo, tun0, eth0, eth1]) = Inr ([lo, tun0] @ eth0 # [eth1])"
    by (simp add: host_def)
  have b: "\<forall>x\<in>set [lo, tun0]. \<not> (qualifying x \<and> HardwareAddr x \<noteq> [])"
    by (simp add: qualifying_def ex_first_pair tun0_def)
  have c: "qualifying eth0" by (simp add: qualifying_def ex_first_pair)
  have d: "HardwareAddr eth0 \<noteq> []" by (simp add: eth0_def)
  from first_qualifying_with_hardware_addr [OF a b c d]
  have "ip_mac (getSystemInfo (host [lo, tun0, eth0, eth1])) =
          Some (''192.0.2.10'', ''aa:bb:cc:dd:ee:ff'')"
    by (simp add: ex_first_pair)
  with a b c d show ?thesis by simp
qed

text \<open>
  Claim C1 as it is written fails on the list \<open>[tun0, eth0]\<close>: both interfaces have a
  non-loopback IPv4 address, \<open>tun0\<close> is enumerated first, and the pair returned is
  the pair of \<open>eth0\<close>.
\<close>

theorem first_qualifying_counterexample:
  "qualifying tun0 \<and> qualifying eth0
   \<and> first_pair tun0 = Some (''10.8.0.1'', '''')
   \<and> ip_mac (getSystemInfo (host [tun0, eth0])) = Some (''192.0.2.10'', ''aa:bb:cc:dd:ee:ff'')
   \<and> ip_mac (getSystemInfo (host [tun0, eth0])) \<noteq> first_pair tun0"
  by (simp add: getSystemInfo_def host_def scan0_def qualifying_def first_pair_def
                tun0_def eth0_def text_defs Let_def)

text \<open>
  Claim C2. Let the loop have run over the interfaces \<open>pre\<close>. If both strings are
  non-empty then, the run over any longer list \<open>pre @ post\<close> ends in that same state,
  and \<open>Addrs()\<close> has been called on interfaces of \<open>pre\<close> only: the enumeration has
  stopped. If one of the strings is still empty, the run over \<open>pre @ iface # rest\<close>
  goes on from the state reached with the next interface \<open>iface\<close>, and \<open>Addrs()\<close>
  is called on it.
\<close>

theorem stop_when_found_else_continue:
  "(found (iface_loop pre scan0) \<longrightarrow>
      iface_loop (pre @ post) scan0 = iface_loop pre scan0
      \<and> prefix (queried (iface_loop (pre @ post) scan0)) pre)
   \<and> (\<not> found (iface_loop pre scan0) \<longrightarrow>
      iface_loop (pre @ iface # rest) scan0 = iface_loop (iface # rest) (iface_loop pre scan0)
      \<and> prefix (pre @ [iface]) (queried (iface_loop (pre @ iface # rest) scan0)))"
proof -
  have nf: "\<not> found scan0" by (simp add: found_def scan0_def)
  have stop: "iface_loop (pre @ post) scan0 = iface_loop pre scan0
              \<and> prefix (queried (iface_loop (pre @ post) scan0)) pre"
    if f: "found (iface_loop pre scan0)"
  proof -
    have eq: "iface_loop (pre @ post) scan0 = iface_loop pre scan0"
      by (rule loop_stop [OF nf f])
    obtain n where "queried (iface_loop pre scan0) = queried scan0 @ take n pre"
      using queried_within [of pre scan0] ..
    then have "queried (iface_loop pre scan0) = take n pre" by (simp add: scan0_def)
    then have "prefix (queried (iface_loop (pre @ post) scan0)) pre"
      unfolding eq by (simp add: take_is_prefix)
    with eq show ?thesis ..
  qed
  have continue: "iface_loop (pre @ iface # rest) scan0
                    = iface_loop (iface # rest) (iface_loop pre scan0)
                  \<and> prefix (pre @ [iface]) (queried (iface_loop (pre @ iface # rest) scan0))"
    if g: "\<not> found (iface_loop pre scan0)"
  proof -
    let ?st = "iface_loop pre scan0"
    from loop_continue [OF nf g, of "iface # rest"]
    have eq: "iface_loop (pre @ iface # rest) scan0 = iface_loop (iface # rest) ?st"
      and q: "queried ?st = queried scan0 @ pre" by simp_all
    have b: "queried (addr_loop iface addrs s') = queried s'" for addrs s'
      by (simp add: addr_loop_find split: option.splits)
    have ext: "prefix (queried s') (queried (iface_loop rest s'))" for s'
      by (rule queried_extends)
    have "prefix (queried ?st @ [iface]) (queried (iface_loop (iface # rest) ?st))"
      using ext [of "?st\<lparr>queried := queried ?st @ [iface]\<rparr>"]
            ext [of "addr_loop iface addrs (?st\<lparr>queried := queried ?st @ [iface]\<rparr>)" for addrs]
      by (auto simp: Let_def b split: sum.splits)
    then have "prefix (pre @ [iface]) (queried (iface_loop (pre @ iface # rest) scan0))"
      unfolding eq q by (simp add: scan0_def)
    with eq show ?thesis ..
  qed
  from stop continue show ?thesis by blast
qed

text \<open>
  An instance of each case: after \<open>eth0\<close> both strings are there and \<open>eth1\<close> is never
  asked; after \<open>tun0\<close>, whose hardware address is empty, \<open>eth0\<close> is asked next.
\<close>

theorem stop_when_found_else_continue_witness:
  "found (iface_loop [eth0] scan0)
   \<and> queried (iface_loop ([eth0] @ [eth1]) scan0) = [eth0]
   \<and> \<not> found (iface_loop [tun0] scan0)
   \<and> prefix ([tun0] @ [eth0]) (queried (iface_loop ([tun0] @ eth0 # [eth1]) scan0))"
proof -
  have a: "found (iface_loop [eth0] scan0)" unfolding ex_loops by (simp add: found_def)
  have b: "\<not> found (iface_loop [tun0] scan0)" unfolding ex_loops by (simp add: found_def)
  from stop_when_found_else_continue [of "[eth0]" "[eth1]"] a
  have "iface_loop ([eth0] @ [eth1]) scan0 = iface_loop [eth0] scan0" by blast
  then have c: "queried (iface_loop ([eth0] @ [eth1]) scan0) = [eth0]"
    unfolding ex_loops by simp
  from stop_when_found_else_continue [of "[tun0]" "[]" eth0 "[eth1]"] b
  have d: "prefix ([tun0] @ [eth0]) (queried (iface_loop ([tun0] @ eth0 # [eth1]) scan0))"
    by blast
  from a c b d show ?thesis by blast
qed

text \<open>
  Claim C3. When \<open>net.Interfaces()\<close> returns an error, \<open>getSystemInfo\<close> ends the
  process through \<open>log.Fatal\<close> with that error: it returns no identity, not even an
  empty one, and does not ask again.
\<close>

theorem interfaces_error_is_fatal:
  "Interfaces env = Inl err \<Longrightarrow> getSystemInfo env = Fatal err"
  by (simp add: getSystemInfo_def)

text \<open>An instance: the enumeration is refused.\<close>

theorem interfaces_error_is_fatal_witness:
  "Interfaces \<lparr>Hostname = Inr ''web-1'',
               Interfaces = Inl (OSError ''route ip+net: netlinkrib: permission denied''),
               Now = 0\<rparr>
     = Inl (OSError ''route ip+net: netlinkrib: permission denied'')
   \<and> getSystemInfo \<lparr>Hostname = Inr ''web-1'',
                     Interfaces = Inl (OSError ''route ip+net: netlinkrib: permission denied''),
                     Now = 0\<rparr>
     = Fatal (OSError ''route ip+net: netlinkrib: permission denied'')"
  using interfaces_error_is_fatal
          [of "\<lparr>Hostname = Inr ''web-1'',
                Interfaces = Inl (OSError ''route ip+net: netlinkrib: permission denied''),
                Now = 0\<rparr>"
              "OSError ''route ip+net: netlinkrib: permission denied''"]
  by simp

text \<open>
  Claim C4. When no interface of the list qualifies (none offers a non-loopback IPv4
  address), the resolver returns, and both the IPv4 string and the hardware address
  string are empty.
\<close>

theorem no_qualifying_interface_gives_empty:
  assumes "Interfaces env = Inr ifs" and "\<forall>x\<in>set ifs. \<not> qualifying x"
  shows "ip_mac (getSystemInfo env) = Some ('''', '''')"
proof -
  have "List.map_filter first_pair ifs = []"
    using assms(2) unfolding qualifying_def by (intro map_filter_all_None) blast
  then have "chosen ifs = ('''', '''')" by (simp add: chosen_def)
  then show ?thesis using ip_mac_chosen [OF assms(1)] by simp
qed

text \<open>An instance: the loopback interface alone.\<close>

theorem no_qualifying_interface_gives_empty_witness:
  "Interfaces (host [lo]) = Inr [lo] \<and> \<not> qualifying lo
   \<and> getSystemInfo (host [lo]) = Returned ''web-1'' '''' ''''"
proof -
  have a: "Interfaces (host [lo]) = Inr [lo]" by (simp add: host_def)
  have b: "\<forall>x\<in>set [lo]. \<not> qualifying x" by (simp add: qualifying_def ex_first_pair)
  have c: "\<exists>ip mac. getSystemInfo (host [lo]) = Returned ''web-1'' ip mac"
    by (simp add: getSystemInfo_def host_def Let_def)
  show ?thesis
    using no_qualifying_interface_gives_empty [OF a b] a b c by auto
qed

text \<open>
  Claim C5. The result is determined by the network configuration: two calls that see
  the same hostname answer and the same interface list return the same outcome,
  whatever else differs between them (the time of the call, for one).
\<close>

theorem resolver_deterministic:
  "Hostname e1 = Hostname e2 \<Longrightarrow> Interfaces e1 = Interfaces e2 \<Longrightarrow>
   getSystemInfo e1 = getSystemInfo e2"
  by (simp add: getSystemInfo_def)

text \<open>An instance: the same host a minute later.\<close>

theorem resolver_deterministic_witness:
  "Hostname (host [lo, eth0]) = Hostname ((host [lo, eth0])\<lparr>Now := 60\<rparr>)
   \<and> Interfaces (host [lo, eth0]) = Interfaces ((host [lo, eth0])\<lparr>Now := 60\<rparr>)
   \<and> host [lo, eth0] \<noteq> (host [lo, eth0])\<lparr>Now := 60\<rparr>
   \<and> getSystemInfo (host [lo, eth0]) = getSystemInfo ((host [lo, eth0])\<lparr>Now := 60\<rparr>)"
  using resolver_deterministic [of "host [lo, eth0]" "(host [lo, eth0])\<lparr>Now := 60\<rparr>"]
  by (simp add: host_def)

text \<open>
  Claim C6. When \<open>os.Hostname()\<close> fails, the process is not ended for that: if the
  interfaces can be enumerated, the resolver returns with an empty hostname. And the
  IPv4 and hardware address strings do not depend on the hostname answer at all: they
  are the same for every answer, success or failure.
\<close>

theorem hostname_failure_not_fatal:
  assumes "Hostname env = Inl err"
  shows "(\<forall>ifs. Interfaces env = Inr ifs \<longrightarrow>
            (\<exists>ip mac. getSystemInfo env = Returned '''' ip mac))
         \<and> (\<forall>r. ip_mac (getSystemInfo (env\<lparr>Hostname := r\<rparr>)) = ip_mac (getSystemInfo env))"
  using assms by (auto simp: getSystemInfo_def Let_def split: sum.splits)

text \<open>An instance: the same interfaces with a failing and with a working hostname query.\<close>

theorem hostname_failure_not_fatal_witness:
  "Hostname ((host [lo, eth0])\<lparr>Hostname := Inl (OSError ''uname: function not implemented'')\<rparr>)
     = Inl (OSError ''uname: function not implemented'')
   \<and> Interfaces ((host [lo, eth0])\<lparr>Hostname := Inl (OSError ''uname: function not implemented'')\<rparr>)
     = Inr [lo, eth0]
   \<and> getSystemInfo ((host [lo, eth0])\<lparr>Hostname := Inl (OSError ''uname: function not implemented'')\<rparr>)
     = Returned '''' ''192.0.2.10'' ''aa:bb:cc:dd:ee:ff''
   \<and> getSystemInfo (host [lo, eth0]) = Returned ''web-1'' ''192.0.2.10'' ''aa:bb:cc:dd:ee:ff''"
proof -
  let ?env = "(host [lo, eth0])\<lparr>Hostname := Inl (OSError ''uname: function not implemented'')\<rparr>"
  have a: "Hostname ?env = Inl (OSError ''uname: function not implemented'')" by simp
  have b: "Interfaces ?env = Inr [lo, eth0]" by (simp add: host_def)
  have c: "?env\<lparr>Hostname := Inr ''web-1''\<rparr> = host [lo, eth0]" by (simp add: host_def)
  have d: "ip_mac (getSystemInfo (host [lo, eth0])) = Some (''192.0.2.10'', ''aa:bb:cc:dd:ee:ff'')"
    by (simp add: ex_eth0_only)
  have e: "\<exists>ip mac. getSystemInfo (host [lo, eth0]) = Returned ''web-1'' ip mac"
    by (simp add: getSystemInfo_def host_def Let_def)
  from hostname_failure_not_fatal [OF a]
  have f: "\<exists>ip mac. getSystemInfo ?env = Returned '''' ip mac"
    and g: "ip_mac (getSystemInfo (?env\<lparr>Hostname := Inr ''web-1''\<rparr>)) = ip_mac (getSystemInfo ?env)"
    using b by blast+
  from g d have h: "ip_mac (getSystemInfo ?env) = Some (''192.0.2.10'', ''aa:bb:cc:dd:ee:ff'')"
    unfolding c by simp
  from f h have "getSystemInfo ?env = Returned '''' ''192.0.2.10'' ''aa:bb:cc:dd:ee:ff''" by auto
  moreover from e d have "getSystemInfo (host [lo, eth0]) = Returned ''web-1'' ''192.0.2.10'' ''aa:bb:cc:dd:ee:ff''"
    by auto
  ultimately show ?thesis using a b by blast
qed

text \<open>
  Claim C7. In an interface list with exactly one non-loopback IPv4 address,
  \<open>192.0.2.10\<close> (as four bytes or as an IPv4-mapped sixteen), on an interface whose
  hardware address is \<open>aa:bb:cc:dd:ee:ff\<close>, the resolver returns exactly the pair
  \<open>("192.0.2.10", "aa:bb:cc:dd:ee:ff")\<close>.
\<close>

theorem documentation_address_example:
  assumes "Interfaces env = Inr (pre @ iface # post)"
    and "\<forall>x\<in>set (pre @ post). \<not> qualifying x"
    and "Addrs iface = Inr (as1 @ IPNet ip m # as2)"
    and "\<forall>a\<in>set (as1 @ as2). \<not> nonLoopbackIPv4 a"
    and "To4 ip = Some [192, 0, 2, 10]"
    and "HardwareAddr iface = [0xaa, 0xbb, 0xcc, 0xdd, 0xee, 0xff]"
  shows "ip_mac (getSystemInfo env) = Some (''192.0.2.10'', ''aa:bb:cc:dd:ee:ff'')"
proof -
  have sel: "nonLoopbackIPv4 (IPNet ip m)"
    using assms(5) by (simp add: IsLoopback_def)
  have "find nonLoopbackIPv4 (as1 @ IPNet ip m # as2) = Some (IPNet ip m)"
    using assms(4) sel by (intro find_skip_prefix) simp_all
  moreover have "IP_String ip = ''192.0.2.10''"
    using assms(5) To4_Some_length [OF assms(5)] by (auto simp: IP_String_def ex_texts)
  ultimately have fp: "first_pair iface = Some (''192.0.2.10'', ''aa:bb:cc:dd:ee:ff'')"
    using assms(3,6) by (simp add: first_pair_def ex_texts)
  have "List.map_filter first_pair pre = []" "List.map_filter first_pair post = []"
    using assms(2) by (intro no_pairs; simp)+
  then have "chosen (pre @ iface # post) = (''192.0.2.10'', ''aa:bb:cc:dd:ee:ff'')"
    using fp by (simp add: chosen_def map_filter_append)
  then show ?thesis using ip_mac_chosen [OF assms(1)] by simp
qed

text \<open>An instance: \<open>eth0\<close> between the loopback interface and an IPv6-only one.\<close>

theorem documentation_address_example_witness:
  "Interfaces (host [lo, eth0, eth2]) = Inr ([lo] @ eth0 # [eth2])
   \<and> \<not> qualifying lo \<and> \<not> qualifying eth2
   \<and> Addrs eth0 = Inr ([] @ IPNet [192, 0, 2, 10] [255, 255, 255, 0] # [])
   \<and> To4 [192, 0, 2, 10] = Some [192, 0, 2, 10]
   \<and> HardwareAddr eth0 = [0xaa, 0xbb, 0xcc, 0xdd, 0xee, 0xff]
   \<and> ip_mac (getSystemInfo (host [lo, eth0, eth2])) = Some (''192.0.2.10'', ''aa:bb:cc:dd:ee:ff'')"
proof -
  have a: "Interfaces (host [lo, eth0, eth2]) = Inr ([lo] @ eth0 # [eth2])"
    by (simp add: host_def)
  have b: "\<forall>x\<in>set ([lo] @ [eth2]). \<not> qualifying x"
    by (simp add: qualifying_def ex_first_pair)
  have c: "Addrs eth0 = Inr ([] @ IPNet [192, 0, 2, 10] [255, 255, 255, 0] # [])"
    by (simp add: eth0_def)
  have d: "\<forall>a\<in>set ([] @ []). \<not> nonLoopbackIPv4 a" by simp
  have e: "To4 [192, 0, 2, 10] = Some [192, 0, 2, 10]" by (simp add: To4_def)
  have f: "HardwareAddr eth0 = [0xaa, 0xbb, 0xcc, 0xdd, 0xee, 0xff]" by (simp add: eth0_def)
  from documentation_address_example [OF a b c d e f]
  have "ip_mac (getSystemInfo (host [lo, eth0, eth2])) = Some (''192.0.2.10'', ''aa:bb:cc:dd:ee:ff'')" .
  with a b c e f show ?thesis by simp
qed

text \<open>
  Claim C8. An interface none of whose addresses is an IPv4 address (\<open>To4\<close> is nil
  for each) is skipped: the resolver returns what it returns on the list without
  that interface, so the enumeration has gone on to the interfaces after it and
  the interface has contributed neither string.
\<close>

theorem ipv6_only_interface_skipped:
  assumes "Interfaces env = Inr (pre @ iface # post)"
    and "Addrs iface = Inr addrs"
    and "\<forall>a\<in>set addrs. To4 (addr_ip a) = None"
  shows "getSystemInfo env = getSystemInfo (env\<lparr>Interfaces := Inr (pre @ post)\<rparr>)"
proof -
  have "\<not> nonLoopbackIPv4 a" if mem: "a \<in> set addrs" for a
  proof
    assume "nonLoopbackIPv4 a"
    then have "To4 (addr_ip a) \<noteq> None" by (rule nonLoopbackIPv4_To4)
    moreover have "To4 (addr_ip a) = None" using assms(3) mem by (rule bspec)
    ultimately show False by contradiction
  qed
  then have "find nonLoopbackIPv4 addrs = None" by (simp add: find_None_iff)
  then have "first_pair iface = None" using assms(2) by (simp add: first_pair_def)
  then have "chosen (pre @ iface # post) = chosen (pre @ post)" by (rule chosen_drop_None)
  then show ?thesis
    using getSystemInfo_chosen [OF assms(1)]
          getSystemInfo_chosen [of "env\<lparr>Interfaces := Inr (pre @ post)\<rparr>" "pre @ post"]
    by simp
qed

text \<open>An instance: \<open>eth2\<close> has the address \<open>fe80::1\<close> only.\<close>

theorem ipv6_only_interface_skipped_witness:
  "Interfaces (host [lo, eth2, eth0]) = Inr ([lo] @ eth2 # [eth0])
   \<and> Addrs eth2 = Inr [IPNet [0xfe, 0x80, 0, 0, 0, 0, 0, 0, 0, 0, 0, 0, 0, 0, 0, 1]
                              (replicate 8 0xff @ replicate 8 0)]
   \<and> To4 [0xfe, 0x80, 0, 0, 0, 0, 0, 0, 0, 0, 0, 0, 0, 0, 0, 1] = None
   \<and> getSystemInfo (host [lo, eth2, eth0]) = Returned ''web-1'' ''192.0.2.10'' ''aa:bb:cc:dd:ee:ff''"
proof -
  let ?addrs = "[IPNet [0xfe, 0x80, 0, 0, 0, 0, 0, 0, 0, 0, 0, 0, 0, 0, 0, 1]
                       (replicate 8 0xff @ replicate 8 0)]"
  have a: "Interfaces (host [lo, eth2, eth0]) = Inr ([lo] @ eth2 # [eth0])"
    by (simp add: host_def)
  have b: "Addrs eth2 = Inr ?addrs" by (simp add: eth2_def)
  have c: "\<forall>a\<in>set ?addrs. To4 (addr_ip a) = None" by (simp add: To4_def isZeros_def)
  have d: "(host [lo, eth2, eth0])\<lparr>Interfaces := Inr ([lo] @ [eth0])\<rparr> = host [lo, eth0]"
    by (simp add: host_def)
  from ipv6_only_interface_skipped [OF a b c]
  have "getSystemInfo (host [lo, eth2, eth0]) = Returned ''web-1'' ''192.0.2.10'' ''aa:bb:cc:dd:ee:ff''"
    unfolding d ex_eth0_only .
  with a b c show ?thesis by simp
qed

text \<open>
  Claim C9. When the IPv4 string returned is not empty, there is one interface of the
  list that offers exactly the returned pair: the IPv4 string is the text of its first
  non-loopback IPv4 address and the hardware address string is the text of its own
  hardware address.
\<close>

theorem address_pair_from_one_interface:
  assumes "Interfaces env = Inr ifs"
    and "getSystemInfo env = Returned hostname ip mac"
    and "ip \<noteq> ''''"
  shows "\<exists>iface\<in>set ifs. first_pair iface = Some (ip, mac)"
proof -
  let ?ps = "List.map_filter first_pair ifs"
  have ch: "chosen ifs = (ip, mac)"
    using ip_mac_chosen [OF assms(1)] assms(2) by simp
  have "(ip, mac) \<in> set ?ps"
  proof (cases "find (\<lambda>p. snd p \<noteq> []) ?ps")
    case None
    with ch assms(3) have "?ps \<noteq> []" and "last ?ps = (ip, mac)"
      by (auto simp: chosen_def Let_def split: if_splits)
    then show ?thesis using last_in_set by metis
  next
    case (Some p)
    with ch have "p = (ip, mac)" by (simp add: chosen_def Let_def)
    with Some show ?thesis by (auto simp: find_Some_iff)
  qed
  then show ?thesis by (simp add: in_set_map_filter)
qed

text \<open>An instance, with an empty hardware address: the pair is the one of \<open>tun0\<close>.\<close>

theorem address_pair_from_one_interface_witness:
  "Interfaces (host [eth2, tun0, lo]) = Inr [eth2, tun0, lo]
   \<and> getSystemInfo (host [eth2, tun0, lo]) = Returned ''web-1'' ''10.8.0.1'' ''''
   \<and> ''10.8.0.1'' \<noteq> ''''
   \<and> (\<exists>iface\<in>set [eth2, tun0, lo]. first_pair iface = Some (''10.8.0.1'', ''''))"
proof -
  have a: "Interfaces (host [eth2, tun0, lo]) = Inr [eth2, tun0, lo]" by (simp add: host_def)
  have c: "''10.8.0.1'' \<noteq> ''''" by simp
  from address_pair_from_one_interface [OF a ex_tun0_last c] a ex_tun0_last c
  show ?thesis by blast
qed

text \<open>
  Claim C10. An interface whose \<open>Addrs()\<close> call fails is skipped: the resolver
  returns what it returns on the list without that interface, so a later qualifying
  interface still gives its pair; and the process is not ended.
\<close>

theorem unreadable_interface_skipped:
  assumes "Interfaces env = Inr (pre @ iface # post)"
    and "Addrs iface = Inl err"
  shows "getSystemInfo env = getSystemInfo (env\<lparr>Interfaces := Inr (pre @ post)\<rparr>)
         \<and> (\<exists>hostname ip mac. getSystemInfo env = Returned hostname ip mac)"
proof -
  have "first_pair iface = None" using assms(2) by (simp add: first_pair_def)
  then have "chosen (pre @ iface # post) = chosen (pre @ post)" by (rule chosen_drop_None)
  then show ?thesis
    using getSystemInfo_chosen [OF assms(1)]
          getSystemInfo_chosen [of "env\<lparr>Interfaces := Inr (pre @ post)\<rparr>" "pre @ post"]
    by simp
qed

text \<open>An instance: \<open>eth3\<close> cannot be read, \<open>eth0\<close> after it gives the pair.\<close>

theorem unreadable_interface_skipped_witness:
  "Interfaces (host [lo, eth3, eth0]) = Inr ([lo] @ eth3 # [eth0])
   \<and> Addrs eth3 = Inl (OSError ''route ip+net: no such network interface'')
   \<and> getSystemInfo (host [lo, eth3, eth0]) = Returned ''web-1'' ''192.0.2.10'' ''aa:bb:cc:dd:ee:ff''"
proof -
  have a: "Interfaces (host [lo, eth3, eth0]) = Inr ([lo] @ eth3 # [eth0])"
    by (simp add: host_def)
  have b: "Addrs eth3 = Inl (OSError ''route ip+net: no such network interface'')"
    by (simp add: eth3_def)
  have d: "(host [lo, eth3, eth0])\<lparr>Interfaces := Inr ([lo] @ [eth0])\<rparr> = host [lo, eth0]"
    by (simp add: host_def)
  from unreadable_interface_skipped [OF a b]
  have "getSystemInfo (host [lo, eth3, eth0]) = getSystemInfo (host [lo, eth0])"
    unfolding d by blast
  then have "getSystemInfo (host [lo, eth3, eth0]) = Returned ''web-1'' ''192.0.2.10'' ''aa:bb:cc:dd:ee:ff''"
    unfolding ex_eth0_only .
  with a b show ?thesis by blast
qed

end
